theory Spec2Isabelle
  imports Complex_Main "HOL-Library.Log_Nat"
begin

section \<open>Python values used by \<^verbatim>\<open>scripts/visdrone2yolo.py\<close>\<close>

text \<open>
  Exceptions are values. Only the class of an exception is kept, not its message.
  \<open>OSError\<close> stands for every failure of the operating system or of the decoder while a
  file is opened or read.
\<close>

datatype error = AttributeError | ValueError | ZeroDivisionError | OverflowError | OSError

definition ebind :: "error + 'a \<Rightarrow> ('a \<Rightarrow> error + 'b) \<Rightarrow> error + 'b" where
  "ebind m f = (case m of Inl e \<Rightarrow> Inl e | Inr v \<Rightarrow> f v)"

subsection \<open>Floats: IEEE 754 binary64, round to nearest, ties to even\<close>

text \<open>
  A Python \<open>float\<close> is a binary64 number. A finite one is modelled by the rational it
  denotes, and every arithmetic operation returns the exact result rounded by \<open>rnd\<close>:
  53 significant bits, or a multiple of \<open>2 powi - 1074\<close> in the subnormal range. A result
  of magnitude \<open>2 ^ 1024\<close> or more becomes an infinity. Zero has no sign in the model:
  \<open>convert_box\<close> never produces a negative zero, since image sizes are natural numbers.
\<close>

datatype pyfloat = Finite rat | PosInf | NegInf | NaN

definition ilog2 :: "rat \<Rightarrow> int" where
  \<comment> \<open>for \<open>0 < x\<close>: the \<open>k\<close> with \<open>2 powi k \<le> x < 2 powi (k + 1)\<close>\<close>
  "ilog2 x = (if 1 \<le> x then bitlen \<lfloor>x\<rfloor> - 1 else - bitlen (\<lceil>1 / x\<rceil> - 1))"

definition round_half_even :: "rat \<Rightarrow> int" where
  "round_half_even x =
     (let f = \<lfloor>x\<rfloor>; d = x - of_int f
      in if d < 1 / 2 then f else if 1 / 2 < d then f + 1 else if even f then f else f + 1)"

definition rnd :: "rat \<Rightarrow> rat" where
  "rnd x = (if x = 0 then 0
            else let e = max (ilog2 \<bar>x\<bar> - 52) (- 1074)
                 in of_int (round_half_even (x / 2 powi e)) * 2 powi e)"

definition fl :: "rat \<Rightarrow> pyfloat" where
  \<comment> \<open>the float an arithmetic operation returns when its exact result is \<open>x\<close>\<close>
  "fl x = (let r = rnd x
           in if 2 ^ 1024 \<le> r then PosInf else if r \<le> - (2 ^ 1024) then NegInf else Finite r)"

definition float_of_int :: "int \<Rightarrow> error + pyfloat" where
  \<comment> \<open>the conversion Python applies to an \<open>int\<close> operand of a float operation\<close>
  "float_of_int n = (let r = rnd (of_int n)
                     in if 2 ^ 1024 \<le> \<bar>r\<bar> then Inl OverflowError else Inr (Finite r))"

fun fadd :: "pyfloat \<Rightarrow> pyfloat \<Rightarrow> pyfloat" where
  "fadd (Finite a) (Finite b) = fl (a + b)"
| "fadd NaN _ = NaN"
| "fadd _ NaN = NaN"
| "fadd PosInf NegInf = NaN"
| "fadd NegInf PosInf = NaN"
| "fadd PosInf _ = PosInf"
| "fadd NegInf _ = NegInf"
| "fadd _ PosInf = PosInf"
| "fadd _ NegInf = NegInf"

fun fneg :: "pyfloat \<Rightarrow> pyfloat" where
  "fneg (Finite a) = Finite (- a)"
| "fneg PosInf = NegInf"
| "fneg NegInf = PosInf"
| "fneg NaN = NaN"

fun fmul :: "pyfloat \<Rightarrow> pyfloat \<Rightarrow> pyfloat" where
  "fmul (Finite a) (Finite b) = fl (a * b)"
| "fmul NaN _ = NaN"
| "fmul _ NaN = NaN"
| "fmul (Finite a) y = (if a = 0 then NaN else if 0 < a then y else fneg y)"
| "fmul x (Finite b) = (if b = 0 then NaN else if 0 < b then x else fneg x)"
| "fmul PosInf y = y"
| "fmul NegInf y = fneg y"

fun fdiv :: "pyfloat \<Rightarrow> pyfloat \<Rightarrow> error + pyfloat" where
  "fdiv x (Finite b) =
     (if b = 0 then Inl ZeroDivisionError
      else case x of
             Finite a \<Rightarrow> Inr (fl (a / b))
           | NaN \<Rightarrow> Inr NaN
           | _ \<Rightarrow> Inr (if 0 < b then x else fneg x))"
| "fdiv NaN _ = Inr NaN"
| "fdiv _ NaN = Inr NaN"
| "fdiv (Finite a) _ = Inr (Finite 0)"
| "fdiv _ _ = Inr NaN"

definition in_unit :: "pyfloat \<Rightarrow> bool" where
  \<comment> \<open>\<^verbatim>\<open>0 <= x <= 1\<close>\<close>
  "in_unit x = (case x of Finite r \<Rightarrow> 0 \<le> r \<and> r \<le> 1 | _ \<Rightarrow> False)"

section \<open>The coordinate transform\<close>

text \<open>
  \<^verbatim>\<open>convert_box(size, box)\<close>, lines 14 to 38. \<open>size\<close> is the \<open>size\<close> of an opened
  PIL image, a pair of pixel counts; \<open>box\<close> is the tuple of four Python integers the caller
  builds. Each mixed operation converts its integer operand first, which raises
  OverflowError beyond the float range; dividing by a zero size raises ZeroDivisionError.
\<close>

definition convert_box ::
  "nat \<times> nat \<Rightarrow> int \<times> int \<times> int \<times> int \<Rightarrow> error + (pyfloat \<times> pyfloat \<times> pyfloat \<times> pyfloat)" where
  "convert_box img_size box =
     (case box of (b0, b1, b2, b3) \<Rightarrow>
      ebind (ebind (float_of_int (int (fst img_size))) (fdiv (Finite 1))) (\<lambda>dw.
      ebind (ebind (float_of_int (int (snd img_size))) (fdiv (Finite 1))) (\<lambda>dh.
      ebind (ebind (float_of_int b2) (\<lambda>w. fdiv w (Finite 2))) (\<lambda>hw.
      ebind (float_of_int b0) (\<lambda>x.
      let center_x = fmul (fadd x hw) dw in
      ebind (ebind (float_of_int b3) (\<lambda>h. fdiv h (Finite 2))) (\<lambda>hh.
      ebind (float_of_int b1) (\<lambda>y.
      let center_y = fmul (fadd y hh) dh in
      ebind (float_of_int b2) (\<lambda>w.
      let width = fmul w dw in
      ebind (float_of_int b3) (\<lambda>h.
      let height = fmul h dh in
      Inr (center_x, center_y, width, height))))))))))"

section \<open>Text\<close>

text \<open>
  A Python \<open>str\<close> is modelled as a list of characters with code points below 256.
  \<open>is_space\<close> is \<^verbatim>\<open>str.isspace\<close> on one such character, the set that \<^verbatim>\<open>str.strip()\<close>
  and \<^verbatim>\<open>int()\<close> remove; \<open>is_linebreak\<close> is the set of line boundaries of
  \<^verbatim>\<open>str.splitlines()\<close>.
\<close>

definition is_space :: "char \<Rightarrow> bool" where
  "is_space c = (let n = (of_char c :: nat)
                 in (9 \<le> n \<and> n \<le> 13) \<or> (28 \<le> n \<and> n \<le> 32) \<or> n = 133 \<or> n = 160)"

definition is_linebreak :: "char \<Rightarrow> bool" where
  "is_linebreak c = (let n = (of_char c :: nat)
                     in (10 \<le> n \<and> n \<le> 13) \<or> (28 \<le> n \<and> n \<le> 30) \<or> n = 133)"

definition is_digit :: "char \<Rightarrow> bool" where
  "is_digit c = (let n = (of_char c :: nat) in 48 \<le> n \<and> n \<le> 57)"

fun translate_newlines :: "string \<Rightarrow> string" where
  \<comment> \<open>what \<^verbatim>\<open>open(f, 'r')\<close> does to the line endings it reads\<close>
  "translate_newlines [] = []"
| "translate_newlines [c] = (if c = CHR 0x0D then [CHR 0x0A] else [c])"
| "translate_newlines (c # d # cs) =
     (if c = CHR 0x0D \<and> d = CHR 0x0A then CHR 0x0A # translate_newlines cs
      else if c = CHR 0x0D then CHR 0x0A # translate_newlines (d # cs)
      else c # translate_newlines (d # cs))"

definition strip :: "string \<Rightarrow> string" where
  "strip s = rev (dropWhile is_space (rev (dropWhile is_space s)))"

fun splitlines_from :: "string \<Rightarrow> string \<Rightarrow> string list" where
  "splitlines_from cur [] = (if cur = [] then [] else [cur])"
| "splitlines_from cur [c] = (if is_linebreak c then [cur] else [cur @ [c]])"
| "splitlines_from cur (c # d # cs) =
     (if c = CHR 0x0D \<and> d = CHR 0x0A then cur # splitlines_from [] cs
      else if is_linebreak c then cur # splitlines_from [] (d # cs)
      else splitlines_from (cur @ [c]) (d # cs))"

definition splitlines :: "string \<Rightarrow> string list" where
  "splitlines s = splitlines_from [] s"

fun split_from :: "char \<Rightarrow> string \<Rightarrow> string \<Rightarrow> string list" where
  "split_from sep cur [] = [cur]"
| "split_from sep cur (c # cs) =
     (if c = sep then cur # split_from sep [] cs else split_from sep (cur @ [c]) cs)"

definition split :: "char \<Rightarrow> string \<Rightarrow> string list" where
  \<comment> \<open>\<^verbatim>\<open>s.split(sep)\<close> for a separator of one character\<close>
  "split sep s = split_from sep [] s"

fun join :: "string \<Rightarrow> string list \<Rightarrow> string" where
  "join sep [] = []"
| "join sep [x] = x"
| "join sep (x # y # xs) = x @ sep @ join sep (y # xs)"

subsection \<open>\<^verbatim>\<open>int(s)\<close>\<close>

text \<open>
  \<^verbatim>\<open>int(s)\<close> on a string: surrounding whitespace is dropped, one sign is allowed, and the
  rest must be decimal digits, with single underscores allowed between two digits;
  anything else raises ValueError. The whitespace that \<^verbatim>\<open>int()\<close> drops is narrower than
  \<^verbatim>\<open>str.isspace\<close>: the separators with code points 28 to 31 are not dropped, and a field
  that holds one is rejected. \<open>maxd\<close> is the interpreter's
  \<^verbatim>\<open>sys.get_int_max_str_digits()\<close>: \<open>0\<close> where there is no limit, else a bound on the
  number of digits beyond which the conversion raises ValueError as well.
\<close>

definition is_int_space :: "char \<Rightarrow> bool" where
  "is_int_space c = (let n = (of_char c :: nat)
                     in (9 \<le> n \<and> n \<le> 13) \<or> n = 32 \<or> n = 133 \<or> n = 160)"

fun int_body_ok :: "string \<Rightarrow> bool" where
  "int_body_ok [] = False"
| "int_body_ok [c] = is_digit c"
| "int_body_ok (c # d # cs) =
     (is_digit c \<and> (if d = CHR ''_'' then int_body_ok cs else int_body_ok (d # cs)))"

definition digits_val :: "string \<Rightarrow> nat" where
  "digits_val ds = foldl (\<lambda>a c. 10 * a + (of_char c - 48)) 0 ds"

definition py_int :: "nat \<Rightarrow> string \<Rightarrow> error + int" where
  "py_int maxd s =
     (let t = rev (dropWhile is_int_space (rev (dropWhile is_int_space s)));
          neg = (t \<noteq> [] \<and> hd t = CHR ''-'');
          body = (if t \<noteq> [] \<and> (hd t = CHR ''-'' \<or> hd t = CHR ''+'') then tl t else t);
          ds = filter (\<lambda>c. c \<noteq> CHR ''_'') body
      in if \<not> int_body_ok body then Inl ValueError
         else if 640 < length ds \<and> 0 < maxd \<and> maxd < length ds then Inl ValueError
         else Inr (if neg then - int (digits_val ds) else int (digits_val ds)))"

subsection \<open>Formatting\<close>

fun show_nat :: "nat \<Rightarrow> string" where
  "show_nat n = (if n < 10 then [''0123456789'' ! n]
                 else show_nat (n div 10) @ [''0123456789'' ! (n mod 10)])"

declare show_nat.simps [simp del]

definition show_int :: "int \<Rightarrow> string" where
  \<comment> \<open>\<^verbatim>\<open>f"{i}"\<close> for an integer\<close>
  "show_int i = (if i < 0 then CHR ''-'' # show_nat (nat (- i)) else show_nat (nat i))"

definition format_6f :: "pyfloat \<Rightarrow> string" where
  \<comment> \<open>\<^verbatim>\<open>f"{x:.6f}"\<close>: the exact value rounded to six decimals, ties to even\<close>
  "format_6f x =
     (case x of
        Finite r \<Rightarrow>
          (let n = nat (round_half_even (\<bar>r\<bar> * 1000000));
               frac = show_nat (n mod 1000000)
           in (if r < 0 then ''-'' else []) @ show_nat (n div 1000000) @ ''.''
              @ replicate (6 - length frac) (CHR ''0'') @ frac)
      | PosInf \<Rightarrow> ''inf''
      | NegInf \<Rightarrow> ''-inf''
      | NaN \<Rightarrow> ''nan'')"

section \<open>One annotation line\<close>

text \<open>
  The body of the loop over the rows of an annotation file, lines 85 to 108. The result is
  \<open>Inr None\<close> where the body ends without appending (a \<^verbatim>\<open>continue\<close>, or a box
  that fails the range test), \<open>Inr (Some l)\<close> where it appends the line \<open>l\<close>, and
  \<open>Inl e\<close> where it raises \<open>e\<close>.
\<close>

definition parse_box :: "nat \<Rightarrow> string list \<Rightarrow> error + (int \<times> int \<times> int \<times> int)" where
  \<comment> \<open>\<^verbatim>\<open>tuple(map(int, row[:4]))\<close> on a row of at least four fields\<close>
  "parse_box maxd row =
     ebind (py_int maxd (row ! 0)) (\<lambda>b0.
     ebind (py_int maxd (row ! 1)) (\<lambda>b1.
     ebind (py_int maxd (row ! 2)) (\<lambda>b2.
     ebind (py_int maxd (row ! 3)) (\<lambda>b3.
     Inr (b0, b1, b2, b3)))))"

definition label_line :: "int \<Rightarrow> pyfloat \<times> pyfloat \<times> pyfloat \<times> pyfloat \<Rightarrow> string" where
  \<comment> \<open>\<^verbatim>\<open>f"{cls} {' '.join(f'{x:.6f}' for x in box)}\n"\<close>\<close>
  "label_line cls box =
     (case box of (cx, cy, nw, nh) \<Rightarrow>
        show_int cls @ '' '' @ join '' '' (map format_6f [cx, cy, nw, nh]) @ [CHR 0x0A])"

definition convert_row :: "nat \<Rightarrow> nat \<times> nat \<Rightarrow> string list \<Rightarrow> error + string option" where
  "convert_row maxd img_size row =
     (if length row < 8 then Inr None
      else if row ! 5 = ''0'' then Inr None
      else if row ! 4 = ''0'' then Inr None
      else ebind (py_int maxd (row ! 5)) (\<lambda>c.
           let cls = c - 1 in
           if cls < 0 \<or> 9 < cls then Inr None
           else ebind (parse_box maxd row) (\<lambda>b.
                ebind (convert_box img_size b) (\<lambda>box.
                case box of (cx, cy, nw, nh) \<Rightarrow>
                  if in_unit cx \<and> in_unit cy \<and> in_unit nw \<and> in_unit nh
                  then Inr (Some (label_line cls box))
                  else Inr None))))"

fun convert_rows ::
  "nat \<Rightarrow> nat \<times> nat \<Rightarrow> string list list \<Rightarrow> string list \<Rightarrow> error + string list" where
  \<comment> \<open>the \<^verbatim>\<open>for row in ...\<close> loop; the last argument is the list \<^verbatim>\<open>lines\<close>\<close>
  "convert_rows maxd img_size [] lines = Inr lines"
| "convert_rows maxd img_size (row # rows) lines =
     (case convert_row maxd img_size row of
        Inl e \<Rightarrow> Inl e
      | Inr None \<Rightarrow> convert_rows maxd img_size rows lines
      | Inr (Some l) \<Rightarrow> convert_rows maxd img_size rows (lines @ [l]))"

definition rows_of :: "string \<Rightarrow> string list list" where
  \<comment> \<open>\<^verbatim>\<open>[x.split(',') for x in file.read().strip().splitlines()]\<close>\<close>
  "rows_of text = map (split (CHR '','')) (splitlines (strip (translate_newlines text)))"

definition read_lines :: "nat \<Rightarrow> nat \<times> nat \<Rightarrow> error + string \<Rightarrow> error + string list" where
  \<comment> \<open>the \<^verbatim>\<open>try\<close> block, lines 79 to 108; the file is an error where it cannot be read\<close>
  "read_lines maxd img_size file =
     ebind file (\<lambda>text. convert_rows maxd img_size (rows_of text) [])"

section \<open>The file system and the driver\<close>

text \<open>
  What \<^verbatim>\<open>visdrone2yolo(annotations_dir)\<close> reads and writes. \<open>annotation_files\<close> is what
  \<^verbatim>\<open>annotations_dir.glob('*.txt')\<close> yields, in its order: the name of each entry with
  its text, or the error that opening or reading it raises. \<open>image_files\<close> maps a path
  under \<^verbatim>\<open>images/{split}\<close> to what \<^verbatim>\<open>Image.open\<close> gives there: the size of the image, or
  the error it raises; a path that does not exist is unmapped. \<open>label_files\<close> maps a name
  under \<^verbatim>\<open>labels/{split}\<close> to the content of that file, \<open>labels_dir\<close> tells whether the
  directory exists, and \<open>stdout\<close> collects what \<^verbatim>\<open>print\<close> writes. Creating the
  directory and writing a label file are taken to succeed.
\<close>

datatype message =
    ImageNotFound string string
  | ImageOpenError string error string
  | AnnotationError string error

record world =
  annotation_files :: "(string \<times> (error + string)) list"
  image_files :: "string \<Rightarrow> (error + nat \<times> nat) option"
  labels_dir :: bool
  label_files :: "string \<Rightarrow> string option"
  stdout :: "message list"

definition str_with_suffix :: "string \<Rightarrow> string \<Rightarrow> error + string" where
  \<comment> \<open>\<^verbatim>\<open>f.name.with_suffix('.jpg')\<close>, line 63: \<^verbatim>\<open>f.name\<close> is a \<open>str\<close>, and \<open>str\<close> has
      no attribute \<^verbatim>\<open>with_suffix\<close> (it is a method of paths), so the lookup raises\<close>
  "str_with_suffix name suffix = Inl AttributeError"

definition convert_file :: "nat \<Rightarrow> string \<Rightarrow> string \<Rightarrow> error + string \<Rightarrow> world \<Rightarrow> world" where
  \<comment> \<open>the loop body from line 66 on, for the annotation file \<open>name\<close> and its image path\<close>
  "convert_file maxd img_path name file w =
     (case image_files w img_path of
        None \<Rightarrow> w\<lparr>stdout := stdout w @ [ImageNotFound img_path name]\<rparr>
      | Some (Inl e) \<Rightarrow> w\<lparr>stdout := stdout w @ [ImageOpenError img_path e name]\<rparr>
      | Some (Inr img_size) \<Rightarrow>
          (case read_lines maxd img_size file of
             Inl e \<Rightarrow> w\<lparr>stdout := stdout w @ [AnnotationError name e]\<rparr>
           | Inr lines \<Rightarrow>
               if lines \<noteq> [] then w\<lparr>label_files := (label_files w)(name \<mapsto> concat lines)\<rparr>
               else w))"

fun convert_files ::
  "nat \<Rightarrow> (string \<times> (error + string)) list \<Rightarrow> world \<Rightarrow> error option \<times> world" where
  \<comment> \<open>the \<^verbatim>\<open>for f in pbar\<close> loop: the exception that leaves it, if any, and the world then\<close>
  "convert_files maxd [] w = (None, w)"
| "convert_files maxd ((name, file) # fs) w =
     (case str_with_suffix name ''.jpg'' of
        Inl e \<Rightarrow> (Some e, w)
      | Inr img_path \<Rightarrow> convert_files maxd fs (convert_file maxd img_path name file w))"

definition visdrone2yolo :: "nat \<Rightarrow> world \<Rightarrow> error option \<times> world" where
  "visdrone2yolo maxd w = convert_files maxd (annotation_files w) (w\<lparr>labels_dir := True\<rparr>)"

section \<open>Notions used to state the properties\<close>

definition emitted :: "nat \<Rightarrow> nat \<times> nat \<Rightarrow> string list \<Rightarrow> string option" where
  \<comment> \<open>the line that a row adds to \<^verbatim>\<open>lines\<close>, if it adds one\<close>
  "emitted maxd img_size row =
     (case convert_row maxd img_size row of Inr (Some l) \<Rightarrow> Some l | _ \<Rightarrow> None)"

definition example_record :: string where
  "example_record = ''100,100,50,50,1,3,0,0''"

definition split_with_image :: world where
  \<comment> \<open>a split holding \<^verbatim>\<open>a.txt\<close> with the example record and a 1000 by 1000 image \<^verbatim>\<open>a.jpg\<close>\<close>
  "split_with_image =
     \<lparr>annotation_files = [(''a.txt'', Inr example_record)],
      image_files = [''a.jpg'' \<mapsto> Inr (1000, 1000)],
      labels_dir = False, label_files = Map.empty, stdout = []\<rparr>"

definition split_without_image :: world where
  \<comment> \<open>a split holding \<^verbatim>\<open>a.txt\<close> without its image, and \<^verbatim>\<open>b.txt\<close> with its image\<close>
  "split_without_image =
     \<lparr>annotation_files = [(''a.txt'', Inr example_record), (''b.txt'', Inr example_record)],
      image_files = [''b.jpg'' \<mapsto> Inr (1000, 1000)],
      labels_dir = False, label_files = Map.empty, stdout = []\<rparr>"

definition bad_then_good :: string where
  \<comment> \<open>two annotation lines: one whose first coordinate is not an integer, then the example\<close>
  "bad_then_good = ''a,1,1,1,1,1,0,0'' @ [CHR 0x0A] @ ''100,100,50,50,1,3,0,0''"

definition three_lines :: string where
  \<comment> \<open>the example record, a line of two fields, and the example record with category 4\<close>
  "three_lines = ''100,100,50,50,1,3,0,0'' @ [CHR 0x0A] @ ''1,2'' @ [CHR 0x0A]
                   @ ''100,100,50,50,1,4,0,0''"

section \<open>Basic facts\<close>

lemma ebind_Inl [simp]: "ebind (Inl e) f = Inl e"
  by (simp add: ebind_def)

lemma ebind_Inr [simp]: "ebind (Inr v) f = f v"
  by (simp add: ebind_def)

lemma ebind_Inr_iff: "ebind m f = Inr y \<longleftrightarrow> (\<exists>v. m = Inr v \<and> f v = Inr y)"
  by (cases m) simp_all

lemma convert_row_Some:
  assumes "convert_row maxd img_size row = Inr (Some l)"
  shows "8 \<le> length row \<and> row ! 5 \<noteq> ''0'' \<and> row ! 4 \<noteq> ''0'' \<and>
         (\<exists>c b cx cy nw nh. py_int maxd (row ! 5) = Inr c \<and> 0 \<le> c - 1 \<and> c - 1 \<le> 9 \<and>
            parse_box maxd row = Inr b \<and> convert_box img_size b = Inr (cx, cy, nw, nh) \<and>
            in_unit cx \<and> in_unit cy \<and> in_unit nw \<and> in_unit nh \<and>
            l = label_line (c - 1) (cx, cy, nw, nh))"
  using assms
  by (auto simp: convert_row_def ebind_Inr_iff Let_def split: if_splits prod.splits)

lemma in_unit_iff: "in_unit x \<longleftrightarrow> (\<exists>r. x = Finite r \<and> 0 \<le> r \<and> r \<le> 1)"
  by (cases x) (simp_all add: in_unit_def)

lemma py_int_small:
  "py_int maxd ''100'' = Inr 100" "py_int maxd ''50'' = Inr 50" "py_int maxd ''3'' = Inr 3"
  "py_int maxd ''11'' = Inr 11" "py_int maxd ''00'' = Inr 0" "py_int maxd ''1'' = Inr 1"
  "py_int maxd ''4'' = Inr 4" "py_int maxd ''990'' = Inr 990"
  "py_int maxd ''a'' = Inl ValueError"
  by (simp_all add: py_int_def is_int_space_def is_digit_def digits_val_def Let_def)

lemma py_int_separator:
  "py_int maxd [CHR 0x1F, CHR ''3''] = Inl ValueError"
  "py_int maxd [CHR ''3'', CHR 0x1C] = Inl ValueError"
  "py_int maxd [CHR 0xA0, CHR ''3'', CHR 0x85] = Inr 3"
  "py_int maxd '' +3 '' = Inr 3"
  by (simp_all add: py_int_def is_int_space_def is_digit_def digits_val_def Let_def)

lemma convert_row_raises_on_rejected_field:
  assumes "8 \<le> length row" and "row ! 5 \<noteq> ''0''" and "row ! 4 \<noteq> ''0''"
  shows "py_int maxd (row ! 5) = Inl e \<Longrightarrow> convert_row maxd img_size row = Inl e"
    and "py_int maxd (row ! 5) = Inr c \<Longrightarrow> 0 \<le> c - 1 \<Longrightarrow> c - 1 \<le> 9 \<Longrightarrow>
           parse_box maxd row = Inl e \<Longrightarrow> convert_row maxd img_size row = Inl e"
  using assms by (simp_all add: convert_row_def Let_def)

lemma convert_row_separator:
  "convert_row maxd (1000, 1000)
     [''100'', ''100'', ''50'', ''50'', ''1'', [CHR 0x1F, CHR ''4''], ''0'', ''0'']
     = Inl ValueError"
  "convert_row maxd (1000, 1000)
     [[CHR 0x1F, CHR ''3''], ''100'', ''50'', ''50'', ''1'', ''3'', ''0'', ''0'']
     = Inl ValueError"
  by (simp_all add: convert_row_def parse_box_def py_int_small py_int_separator
      py_int_def is_int_space_def is_digit_def digits_val_def Let_def)

subsection \<open>Rounding: exact cases and the relative error\<close>

lemma rhe_of_int: "round_half_even (of_int m) = m"
  by (simp add: round_half_even_def Let_def)

lemma rhe_close: "\<bar>of_int (round_half_even y) - y\<bar> \<le> 1 / 2"
proof -
  have "of_int \<lfloor>y\<rfloor> \<le> y" "y < of_int \<lfloor>y\<rfloor> + 1" by linarith+
  then show ?thesis
    by (auto simp: round_half_even_def Let_def abs_le_iff)
qed

lemma ilog2_bounds:
  assumes "0 < x"
  shows "2 powi (ilog2 x) \<le> x \<and> x < 2 powi (ilog2 x + 1)"
proof (cases "1 \<le> x")
  case True
  define n where "n = \<lfloor>x\<rfloor>"
  have n1: "1 \<le> n" using True by (simp add: n_def le_floor_iff)
  have b: "2 ^ nat (bitlen n - 1) \<le> n" "n < 2 ^ nat (bitlen n)"
    using bitlen_bounds [of n] n1 by auto
  have bl: "1 \<le> bitlen n" using n1 by (simp add: bitlen_alt_def)
  have nx: "of_int n \<le> x" "x < of_int n + 1" unfolding n_def by linarith+
  have e: "ilog2 x = bitlen n - 1" using True by (simp add: ilog2_def n_def)
  have "(2::rat) powi (bitlen n - 1) = of_int (2 ^ nat (bitlen n - 1))"
    using bl by (simp add: power_int_def)
  also have "\<dots> \<le> of_int n" using b(1) by (simp only: of_int_le_iff)
  finally have lo: "2 powi (ilog2 x) \<le> x" using nx e by simp
  have "of_int n + 1 \<le> (of_int (2 ^ nat (bitlen n)) :: rat)"
    using b(2) by (metis of_int_1 of_int_add of_int_le_iff zless_imp_add1_zle)
  also have "\<dots> = 2 powi (bitlen n)" using bl by (simp add: power_int_def)
  finally have "x < 2 powi (ilog2 x + 1)" using nx e by simp
  with lo show ?thesis by simp
next
  case False
  define y where "y = 1 / x"
  define m where "m = \<lceil>y\<rceil> - 1"
  have y1: "1 < y" using False assms by (simp add: y_def)
  have my: "of_int m < y" "y \<le> of_int m + 1" unfolding m_def by linarith+
  have m1: "1 \<le> m" using y1 my by linarith
  have b: "2 ^ nat (bitlen m - 1) \<le> m" "m < 2 ^ nat (bitlen m)"
    using bitlen_bounds [of m] m1 by auto
  have bl: "1 \<le> bitlen m" using m1 by (simp add: bitlen_alt_def)
  have e: "ilog2 x = - bitlen m" using False by (simp add: ilog2_def m_def y_def)
  have up: "y \<le> 2 ^ nat (bitlen m)"
  proof -
    have "of_int m + 1 \<le> (of_int (2 ^ nat (bitlen m)) :: rat)"
      using b(2) by (metis of_int_1 of_int_add of_int_le_iff zless_imp_add1_zle)
    with my show ?thesis by simp
  qed
  have lo: "2 ^ nat (bitlen m - 1) < y"
  proof -
    have "(2::rat) ^ nat (bitlen m - 1) \<le> of_int m"
      using b(1) by simp
    with my show ?thesis by linarith
  qed
  have x: "x = 1 / y" using assms by (simp add: y_def)
  have p1: "(2::rat) powi (ilog2 x) = 1 / 2 ^ nat (bitlen m)"
    using bl e by (simp add: power_int_def field_simps)
  have p2: "(2::rat) powi (ilog2 x + 1) = 1 / 2 ^ nat (bitlen m - 1)"
    using bl e by (simp add: power_int_def field_simps)
  have "1 / 2 ^ nat (bitlen m) \<le> 1 / y" using up y1 by (simp add: frac_le)
  moreover have "1 / y < 1 / 2 ^ nat (bitlen m - 1)" using lo by (simp add: frac_less2)
  ultimately show ?thesis using p1 p2 x by simp
qed

lemma ilog2_less:
  assumes "0 < x" and "x < 2 powi k"
  shows "ilog2 x < k"
proof (rule ccontr)
  assume "\<not> ilog2 x < k"
  then have "(2::rat) powi k \<le> 2 powi (ilog2 x)"
    by (intro power_int_increasing) auto
  with ilog2_bounds [OF assms(1)] assms(2) show False by linarith
qed

lemma ilog2_ge:
  assumes "2 powi k \<le> x"
  shows "k \<le> ilog2 x"
proof (rule ccontr)
  have pos: "0 < x" using assms zero_less_power_int [of "2::rat" k] by linarith
  assume "\<not> k \<le> ilog2 x"
  then have "(2::rat) powi (ilog2 x + 1) \<le> 2 powi k"
    by (intro power_int_increasing) auto
  with ilog2_bounds [OF pos] assms show False by linarith
qed

lemma rnd_exact:
  assumes "\<bar>m\<bar> < 2 ^ 53" and "- 1074 \<le> e"
  shows "rnd (of_int m * 2 powi e) = of_int m * 2 powi e"
proof (cases "m = 0")
  case True
  then show ?thesis by (simp add: rnd_def)
next
  case False
  define x :: rat where "x = of_int m * 2 powi e"
  define E where "E = max (ilog2 \<bar>x\<bar> - 52) (- 1074)"
  have x0: "x \<noteq> 0" using False by (simp add: x_def)
  have ax: "\<bar>x\<bar> = of_int \<bar>m\<bar> * 2 powi e" by (simp add: x_def abs_mult)
  have "(of_int \<bar>m\<bar> :: rat) < 2 ^ 53" using assms(1) by (metis of_int_less_numeral_power_cancel_iff)
  then have "\<bar>x\<bar> < 2 ^ 53 * 2 powi e" unfolding ax by (simp add: mult_strict_right_mono)
  also have "\<dots> = 2 powi (53 + e)" by (simp add: power_int_add)
  finally have "ilog2 \<bar>x\<bar> < 53 + e" using x0 by (intro ilog2_less) auto
  then have Ee: "E \<le> e" using assms(2) by (simp add: E_def)
  have "x / 2 powi E = of_int m * 2 powi (e - E)"
    by (simp add: x_def power_int_diff)
  also have "\<dots> = of_int (m * 2 ^ nat (e - E))"
    using Ee by (simp add: power_int_def)
  finally have y: "x / 2 powi E = of_int (m * 2 ^ nat (e - E))" .
  have "rnd x = of_int (round_half_even (x / 2 powi E)) * 2 powi E"
    using x0 by (simp add: rnd_def E_def Let_def)
  also have "\<dots> = x / 2 powi E * 2 powi E" unfolding y rhe_of_int ..
  also have "\<dots> = x" by simp
  finally show ?thesis by (simp add: x_def)
qed

lemma rnd_rel:
  assumes "2 powi (- 1022) \<le> \<bar>x\<bar>"
  shows "\<bar>rnd x - x\<bar> \<le> \<bar>x\<bar> / 2 ^ 53"
proof -
  define k where "k = ilog2 \<bar>x\<bar>"
  define E where "E = k - 52"
  define y where "y = x / 2 powi E"
  have ax: "0 < \<bar>x\<bar>" using assms zero_less_power_int [of "2::rat" "- 1022"] by linarith
  then have x0: "x \<noteq> 0" by simp
  have k: "- 1022 \<le> k" unfolding k_def using assms by (rule ilog2_ge)
  then have E: "max (ilog2 \<bar>x\<bar> - 52) (- 1074) = E" by (simp add: E_def k_def)
  have r: "rnd x = of_int (round_half_even y) * 2 powi E"
    using x0 E by (simp add: rnd_def Let_def y_def)
  have xy: "x = y * 2 powi E" by (simp add: y_def)
  have "rnd x - x = of_int (round_half_even y) * 2 powi E - y * 2 powi E"
    using r xy by simp
  then have "rnd x - x = (of_int (round_half_even y) - y) * 2 powi E"
    by (simp add: algebra_simps)
  then have "\<bar>rnd x - x\<bar> = \<bar>of_int (round_half_even y) - y\<bar> * 2 powi E"
    by (simp add: abs_mult)
  also have "\<dots> \<le> 1 / 2 * 2 powi E"
    by (intro mult_right_mono rhe_close) simp
  finally have a: "\<bar>rnd x - x\<bar> \<le> 2 powi E / 2" by simp
  have "(2::rat) powi k = 2 powi E * 2 ^ 52"
    by (simp add: E_def power_int_diff)
  moreover have "2 powi k \<le> \<bar>x\<bar>" unfolding k_def using ilog2_bounds [OF ax] by simp
  ultimately have "2 powi E * 2 ^ 52 \<le> \<bar>x\<bar>" by simp
  then have "2 powi E / 2 \<le> \<bar>x\<bar> / 2 ^ 53" by (simp add: field_simps)
  with a show ?thesis by linarith
qed

lemma float_of_int_exact:
  assumes "\<bar>n\<bar> < 2 ^ 53"
  shows "float_of_int n = Inr (Finite (of_int n))"
proof -
  have r: "rnd (of_int n) = of_int n"
    using rnd_exact [of n 0] assms by simp
  have "(of_int \<bar>n\<bar> :: rat) < 2 ^ 53"
    using assms by (metis of_int_less_numeral_power_cancel_iff)
  moreover have "(2::rat) ^ 53 \<le> 2 ^ 1024" by (rule power_increasing) simp_all
  ultimately have "\<bar>of_int n :: rat\<bar> < 2 ^ 1024" by simp
  then show ?thesis by (simp add: float_of_int_def r Let_def)
qed

lemma fl_small:
  assumes "\<bar>rnd x\<bar> < 2 ^ 1024"
  shows "fl x = Finite (rnd x)"
  using assms by (auto simp: fl_def Let_def abs_less_iff)

lemma fl_half_exact:
  assumes "\<bar>k\<bar> < 2 ^ 53"
  shows "fl (of_int k / 2) = Finite (of_int k / 2)"
proof -
  have r: "rnd (of_int k / 2) = of_int k / 2"
    using rnd_exact [of k "- 1"] assms by (simp add: power_int_minus field_simps)
  have "(of_int \<bar>k\<bar> :: rat) < 2 ^ 53"
    using assms by (metis of_int_less_numeral_power_cancel_iff)
  moreover have "(2::rat) ^ 53 \<le> 2 ^ 1024" by (rule power_increasing) simp_all
  ultimately have "\<bar>of_int k / 2 :: rat\<bar> < 2 ^ 1024" by simp
  with r show ?thesis by (simp add: fl_small)
qed

lemma recip_rounded:
  fixes W :: nat
  assumes "0 < W" and "W < 2 ^ 51"
  shows "fl (1 / of_nat W) = Finite (rnd (1 / of_nat W))"
    and "\<bar>rnd (1 / of_nat W) - 1 / of_nat W\<bar> \<le> (1 / of_nat W) / 2 ^ 53"
    and "1 / of_nat W / 2 \<le> rnd (1 / of_nat W)"
    and "rnd (1 / of_nat W) \<le> 2 / of_nat W"
proof -
  define q :: rat where "q = 1 / of_nat W"
  have Wr: "(0::rat) < of_nat W" "(of_nat W :: rat) < 2 ^ 51"
    using assms by simp_all
  have q0: "0 < q" "q \<le> 1"
    using Wr assms by (simp_all add: q_def)
  have "1 / 2 ^ 51 < q" unfolding q_def using Wr by (simp add: field_simps)
  moreover have "(2::rat) powi (- 1022) \<le> 1 / 2 ^ 51"
    by (simp add: power_int_minus field_simps)
  ultimately have big: "2 powi (- 1022) \<le> \<bar>q\<bar>" using q0 by linarith
  have rel: "\<bar>rnd q - q\<bar> \<le> q / 2 ^ 53"
    using rnd_rel [OF big] q0 by simp
  have "q / 2 ^ 53 \<le> q / 2" using q0 by (simp add: field_simps)
  with rel have h: "\<bar>rnd q - q\<bar> \<le> q / 2" by linarith
  have bounds: "q / 2 \<le> rnd q" "rnd q \<le> 2 * q"
    using h q0 by linarith+
  have "\<bar>rnd q\<bar> \<le> 2" using bounds q0 by linarith
  moreover have "(2::rat) ^ 1 < 2 ^ 1024" by (rule power_strict_increasing) simp_all
  ultimately have "\<bar>rnd q\<bar> < 2 ^ 1024" by simp
  then show "fl (1 / of_nat W) = Finite (rnd (1 / of_nat W))"
    unfolding q_def by (rule fl_small)
  show "\<bar>rnd (1 / of_nat W) - 1 / of_nat W\<bar> \<le> (1 / of_nat W) / 2 ^ 53"
    using rel by (simp add: q_def)
  show "1 / of_nat W / 2 \<le> rnd (1 / of_nat W)" using bounds(1) by (simp add: q_def)
  show "rnd (1 / of_nat W) \<le> 2 / of_nat W" using bounds(2) by (simp add: q_def)
qed

lemma scaled_error:
  fixes W :: nat and v :: rat
  assumes "0 < W" and "W < 2 ^ 51" and "v = 0 \<or> 1 / 2 \<le> v" and "v < 2 ^ 52"
  shows "fmul (Finite v) (Finite (rnd (1 / of_nat W))) = Finite (rnd (v * rnd (1 / of_nat W)))"
    and "\<bar>rnd (v * rnd (1 / of_nat W)) - v / of_nat W\<bar> \<le> v / of_nat W / 2 ^ 51"
proof -
  define q :: rat where "q = 1 / of_nat W"
  define d where "d = rnd q"
  define p where "p = v * d"
  have Wr: "(0::rat) < of_nat W" "(of_nat W :: rat) < 2 ^ 51"
    using assms by simp_all
  have q0: "0 < q" "q \<le> 1" using Wr assms by (simp_all add: q_def)
  have qlow: "1 / 2 ^ 51 < q" unfolding q_def using Wr by (simp add: field_simps)
  have dq: "\<bar>d - q\<bar> \<le> q / 2 ^ 53" "q / 2 \<le> d" "d \<le> 2 * q"
    using recip_rounded(2-4) [OF assms(1,2)] by (simp_all add: d_def q_def)
  have both: "fl p = Finite (rnd p) \<and> \<bar>rnd p - v * q\<bar> \<le> v * q / 2 ^ 51"
  proof (cases "v = 0")
    case True
    then have "p = 0" by (simp add: p_def)
    then show ?thesis using True by (simp add: fl_small rnd_def)
  next
    case False
    with assms(3) have v: "1 / 2 \<le> v" by simp
    have v0: "0 \<le> v" using v by linarith
    have "1 / 2 * (q / 2) \<le> v * d"
      using v dq(2) q0 by (intro mult_mono) simp_all
    then have plow: "q / 4 \<le> p" by (simp add: p_def)
    have pup: "p \<le> 2 * (v * q)"
      using mult_left_mono [OF dq(3) v0] by (simp add: p_def mult_ac)
    have "v * q \<le> 2 ^ 52 * 1"
      using assms(4) q0 v0 by (intro mult_mono) simp_all
    with pup have pup': "p \<le> 2 ^ 53" by simp
    have "(2::rat) powi (- 1022) \<le> 1 / 2 ^ 53"
      by (simp add: power_int_minus field_simps)
    moreover have "1 / 2 ^ 53 \<le> q / 4" using qlow by (simp add: field_simps)
    ultimately have big: "2 powi (- 1022) \<le> \<bar>p\<bar>" using plow by linarith
    have p0: "0 \<le> p" using plow q0 by linarith
    have rel: "\<bar>rnd p - p\<bar> \<le> p / 2 ^ 53" using rnd_rel [OF big] p0 by simp
    have "p / 2 ^ 53 \<le> 1" using pup' by (simp add: field_simps)
    with rel pup' p0 have "\<bar>rnd p\<bar> \<le> 2 ^ 53 + 1" by linarith
    moreover have "(2::rat) ^ 53 + 1 < 2 ^ 1024" by simp
    ultimately have "\<bar>rnd p\<bar> < 2 ^ 1024" by linarith
    then have f: "fl p = Finite (rnd p)" by (rule fl_small)
    have "p - v * q = v * (d - q)" by (simp add: p_def algebra_simps)
    then have "\<bar>p - v * q\<bar> = v * \<bar>d - q\<bar>" using v0 by (simp add: abs_mult)
    also have "\<dots> \<le> v * (q / 2 ^ 53)" using dq(1) v0 by (rule mult_left_mono)
    finally have e1: "\<bar>p - v * q\<bar> \<le> v * q / 2 ^ 53" by simp
    have "p / 2 ^ 53 \<le> 2 * (v * q) / 2 ^ 53" using pup by (simp add: field_simps)
    with rel have e2: "\<bar>rnd p - p\<bar> \<le> 2 * (v * q) / 2 ^ 53" by linarith
    have "\<bar>rnd p - v * q\<bar> \<le> \<bar>rnd p - p\<bar> + \<bar>p - v * q\<bar>" by linarith
    with e1 e2 have "\<bar>rnd p - v * q\<bar> \<le> 3 * (v * q) / 2 ^ 53" by linarith
    moreover have "3 * (v * q) / 2 ^ 53 \<le> v * q / 2 ^ 51"
    proof -
      have "0 \<le> v * q" using v0 q0 by simp
      then show ?thesis by (simp add: field_simps)
    qed
    ultimately show ?thesis using f by linarith
  qed
  show "fmul (Finite v) (Finite (rnd (1 / of_nat W))) = Finite (rnd (v * rnd (1 / of_nat W)))"
    using both by (simp add: p_def d_def q_def)
  show "\<bar>rnd (v * rnd (1 / of_nat W)) - v / of_nat W\<bar> \<le> v / of_nat W / 2 ^ 51"
    using both by (simp add: p_def d_def q_def)
qed

lemma half_sum_exact:
  assumes "0 \<le> a" and "a < 2 ^ 51" and "0 \<le> b" and "b < 2 ^ 51"
  shows "fdiv (Finite (of_int b)) (Finite 2) = Inr (Finite (of_int b / 2))"
    and "fadd (Finite (of_int a)) (Finite (of_int b / 2)) = Finite (of_int a + of_int b / 2)"
    and "of_int a + of_int b / 2 = (0::rat) \<or> 1 / 2 \<le> (of_int a + of_int b / 2 :: rat)"
    and "(of_int a + of_int b / 2 :: rat) < 2 ^ 52"
proof -
  have hb: "fl (of_int b / 2) = Finite (of_int b / 2)"
    using assms by (intro fl_half_exact) simp
  have s: "(of_int a + of_int b / 2 :: rat) = of_int (2 * a + b) / 2" by simp
  have hs: "fl (of_int a + of_int b / 2) = Finite (of_int a + of_int b / 2)"
    unfolding s using assms by (intro fl_half_exact) simp
  show "fdiv (Finite (of_int b)) (Finite 2) = Inr (Finite (of_int b / 2))"
    by (simp add: hb)
  show "fadd (Finite (of_int a)) (Finite (of_int b / 2)) = Finite (of_int a + of_int b / 2)"
    by (simp add: hs)
  show "of_int a + of_int b / 2 = (0::rat) \<or> 1 / 2 \<le> (of_int a + of_int b / 2 :: rat)"
  proof (cases "2 * a + b = 0")
    case True
    then show ?thesis unfolding s by simp
  next
    case False
    with assms have "1 \<le> 2 * a + b" by linarith
    then have "(1::rat) \<le> of_int (2 * a + b)" by (simp only: of_int_1_le_iff)
    then show ?thesis unfolding s by simp
  qed
  have "2 * a + b < 2 ^ 53" using assms by simp
  then have "(of_int (2 * a + b) :: rat) < 2 ^ 53"
    by (metis of_int_less_numeral_power_cancel_iff)
  then show "(of_int a + of_int b / 2 :: rat) < 2 ^ 52" unfolding s by simp
qed

lemma width_exact:
  assumes "0 \<le> b" and "b < 2 ^ 51"
  shows "float_of_int b = Inr (Finite (of_int b))"
    and "of_int b = (0::rat) \<or> 1 / 2 \<le> (of_int b :: rat)"
    and "(of_int b :: rat) < 2 ^ 52"
proof -
  show "float_of_int b = Inr (Finite (of_int b))"
    using assms by (intro float_of_int_exact) simp
  show "of_int b = (0::rat) \<or> 1 / 2 \<le> (of_int b :: rat)"
  proof (cases "b = 0")
    case True
    then show ?thesis by simp
  next
    case False
    with assms have "1 \<le> b" by linarith
    then have "(1::rat) \<le> of_int b" by (simp only: of_int_1_le_iff)
    then show ?thesis by simp
  qed
  have "b < 2 ^ 52" using assms by simp
  then show "(of_int b :: rat) < 2 ^ 52" by (metis of_int_less_numeral_power_cancel_iff)
qed

lemma recip_float:
  fixes W :: nat
  assumes "0 < W" and "W < 2 ^ 51"
  shows "ebind (float_of_int (int W)) (fdiv (Finite 1)) = Inr (Finite (rnd (1 / of_nat W)))"
proof -
  have "int W < 2 ^ 51" using assms(2) by (metis of_nat_less_numeral_power_cancel_iff)
  then have "float_of_int (int W) = Inr (Finite (of_int (int W)))"
    by (intro float_of_int_exact) simp
  then show ?thesis
    using assms(1) recip_rounded(1) [OF assms] by simp
qed

subsection \<open>The example of the specification, step by step\<close>

lemma rnd_example:
  "rnd 1000 = 1000" "rnd 100 = 100" "rnd 50 = 50" "rnd 25 = 25" "rnd 125 = 125"
  "rnd (1 / 1000) = 1152921504606847 / 1152921504606846976"
  "rnd (125 * (1152921504606847 / 1152921504606846976)) = 1 / 8"
  "rnd (50 * (1152921504606847 / 1152921504606846976)) = 3602879701896397 / 72057594037927936"
  by code_simp+

lemma float_of_int_example:
  "float_of_int 1000 = Inr (Finite 1000)"
  "float_of_int 100 = Inr (Finite 100)"
  "float_of_int 50 = Inr (Finite 50)"
  by (simp_all add: float_of_int_def Let_def rnd_example)

lemma fdiv_fadd_example:
  "fdiv (Finite 1) (Finite 1000) = Inr (Finite (1152921504606847 / 1152921504606846976))"
  "fdiv (Finite 50) (Finite 2) = Inr (Finite 25)"
  "fadd (Finite 100) (Finite 25) = Finite 125"
  by (simp_all add: fl_def Let_def rnd_example)

lemma fmul_example:
  "fmul (Finite 125) (Finite (1152921504606847 / 1152921504606846976)) = Finite (1 / 8)"
  "fmul (Finite 50) (Finite (1152921504606847 / 1152921504606846976))
     = Finite (3602879701896397 / 72057594037927936)"
  unfolding fmul.simps fl_def Let_def rnd_example by simp_all

lemma convert_box_example:
  "convert_box (1000, 1000) (100, 100, 50, 50)
     = Inr (Finite (1 / 8), Finite (1 / 8), Finite (3602879701896397 / 72057594037927936),
            Finite (3602879701896397 / 72057594037927936))"
  unfolding convert_box_def
  by (simp add: float_of_int_example fdiv_fadd_example fmul_example
      del: fdiv.simps fmul.simps fadd.simps)

lemma convert_box_right_edge:
  "convert_box (1000, 1000) (990, 100, 50, 50)
     = Inr (Finite (2285576810890527 / 2251799813685248), Finite (1 / 8),
            Finite (3602879701896397 / 72057594037927936),
            Finite (3602879701896397 / 72057594037927936))"
proof -
  have r: "rnd 990 = 990" "rnd 1015 = 1015"
    "rnd (1015 * (1152921504606847 / 1152921504606846976))
       = 2285576810890527 / 2251799813685248"
    by code_simp+
  have a: "float_of_int 990 = Inr (Finite 990)"
    by (simp add: float_of_int_def Let_def r)
  have b: "fadd (Finite 990) (Finite 25) = Finite 1015"
    by (simp add: fl_def Let_def r)
  have c: "fmul (Finite 1015) (Finite (1152921504606847 / 1152921504606846976))
             = Finite (2285576810890527 / 2251799813685248)"
    unfolding fmul.simps fl_def Let_def r by simp
  show ?thesis
    unfolding convert_box_def
    by (simp add: float_of_int_example fdiv_fadd_example fmul_example a b c
        del: fdiv.simps fmul.simps fadd.simps)
qed

lemma format_6f_nonneg:
  assumes "0 \<le> r" and "round_half_even (r * 1000000) = int n"
    and "show_nat (n div 1000000) = a" and "show_nat (n mod 1000000) = b"
  shows "format_6f (Finite r) = a @ ''.'' @ replicate (6 - length b) (CHR ''0'') @ b"
  using assms by (simp add: format_6f_def Let_def)

lemma format_eighth: "format_6f (Finite (1 / 8)) = ''0.125000''"
proof -
  have "round_half_even (1 / 8 * 1000000) = 125000" by code_simp
  then have n: "round_half_even (1 / 8 * 1000000) = int 125000" by simp
  have a: "show_nat (125000 div 1000000) = ''0''" by (simp add: show_nat.simps)
  have b: "show_nat (125000 mod 1000000) = ''125000''" by (simp add: show_nat.simps)
  show ?thesis using format_6f_nonneg [OF _ n a b] by simp
qed

lemma format_twentieth:
  "format_6f (Finite (3602879701896397 / 72057594037927936)) = ''0.050000''"
proof -
  have "round_half_even (3602879701896397 / 72057594037927936 * 1000000) = 50000"
    by code_simp
  then have n: "round_half_even (3602879701896397 / 72057594037927936 * 1000000) = int 50000"
    by simp
  have a: "show_nat (50000 div 1000000) = ''0''" by (simp add: show_nat.simps)
  have b: "show_nat (50000 mod 1000000) = ''50000''" by (simp add: show_nat.simps)
  show ?thesis using format_6f_nonneg [OF _ n a b] by simp
qed

lemma show_int_2: "show_int 2 = ''2''"
  by (simp add: show_int_def show_nat.simps)

lemma label_line_example:
  "label_line 2 (Finite (1 / 8), Finite (1 / 8), Finite (3602879701896397 / 72057594037927936),
                 Finite (3602879701896397 / 72057594037927936))
     = ''2 0.125000 0.125000 0.050000 0.050000'' @ [CHR 0x0A]"
  by (simp add: label_line_def format_eighth format_twentieth show_int_2)

lemma convert_row_example:
  "convert_row maxd (1000, 1000) [''100'', ''100'', ''50'', ''50'', ''1'', ''3'', ''0'', ''0'']
     = Inr (Some (''2 0.125000 0.125000 0.050000 0.050000'' @ [CHR 0x0A]))"
  by (simp add: convert_row_def parse_box_def py_int_small convert_box_example in_unit_def
      label_line_example)

lemma rows_of_example:
  "rows_of example_record = [[''100'', ''100'', ''50'', ''50'', ''1'', ''3'', ''0'', ''0'']]"
  by (simp add: rows_of_def example_record_def strip_def is_space_def splitlines_def
      is_linebreak_def split_def)

lemma read_lines_example:
  "read_lines maxd (1000, 1000) (Inr example_record)
     = Inr [''2 0.125000 0.125000 0.050000 0.050000'' @ [CHR 0x0A]]"
  by (simp add: read_lines_def rows_of_example convert_row_example)

lemma convert_row_second:
  "convert_row maxd (1000, 1000) [''100'', ''100'', ''50'', ''50'', ''1'', ''4'', ''0'', ''0'']
     = Inr (Some (''3 0.125000 0.125000 0.050000 0.050000'' @ [CHR 0x0A]))"
proof -
  have "show_int 3 = ''3''" by (simp add: show_int_def show_nat.simps)
  then have "label_line 3 (Finite (1 / 8), Finite (1 / 8),
                 Finite (3602879701896397 / 72057594037927936),
                 Finite (3602879701896397 / 72057594037927936))
               = ''3 0.125000 0.125000 0.050000 0.050000'' @ [CHR 0x0A]"
    by (simp add: label_line_def format_eighth format_twentieth)
  then show ?thesis
    by (simp add: convert_row_def parse_box_def py_int_small convert_box_example in_unit_def)
qed

lemma rows_of_three_lines:
  "rows_of three_lines
     = [[''100'', ''100'', ''50'', ''50'', ''1'', ''3'', ''0'', ''0''], [''1'', ''2''],
        [''100'', ''100'', ''50'', ''50'', ''1'', ''4'', ''0'', ''0'']]"
  by (simp add: rows_of_def three_lines_def strip_def is_space_def splitlines_def
      is_linebreak_def split_def)

lemma read_lines_three_lines:
  "read_lines maxd (1000, 1000) (Inr three_lines)
     = Inr [''2 0.125000 0.125000 0.050000 0.050000'' @ [CHR 0x0A],
            ''3 0.125000 0.125000 0.050000 0.050000'' @ [CHR 0x0A]]"
proof -
  have short: "convert_row maxd (1000, 1000) [''1'', ''2''] = Inr None"
    by (simp add: convert_row_def)
  show ?thesis
    by (simp add: read_lines_def rows_of_three_lines convert_row_example convert_row_second
        short)
qed

lemma rows_of_bad_then_good:
  "rows_of bad_then_good
     = [[''a'', ''1'', ''1'', ''1'', ''1'', ''1'', ''0'', ''0''],
        [''100'', ''100'', ''50'', ''50'', ''1'', ''3'', ''0'', ''0'']]"
  by (simp add: rows_of_def bad_then_good_def strip_def is_space_def splitlines_def
      is_linebreak_def split_def)

lemma convert_row_bad:
  "convert_row maxd (1000, 1000) [''a'', ''1'', ''1'', ''1'', ''1'', ''1'', ''0'', ''0'']
     = Inl ValueError"
  by (simp add: convert_row_def parse_box_def py_int_small)

subsection \<open>The rows loop\<close>

lemma convert_rows_map_filter:
  "convert_rows maxd img_size rows lines = Inr out \<Longrightarrow>
     out = lines @ List.map_filter (emitted maxd img_size) rows"
proof (induction rows arbitrary: lines)
  case Nil
  then show ?case by simp
next
  case (Cons row rows)
  show ?case
  proof (cases "convert_row maxd img_size row")
    case (Inl e)
    with Cons.prems show ?thesis by simp
  next
    case (Inr r)
    show ?thesis
    proof (cases r)
      case None
      with Inr Cons.prems have "convert_rows maxd img_size rows lines = Inr out" by simp
      from Cons.IH [OF this] Inr None show ?thesis
        by (simp add: emitted_def)
    next
      case (Some l)
      with Inr Cons.prems have "convert_rows maxd img_size rows (lines @ [l]) = Inr out"
        by simp
      from Cons.IH [OF this] Inr Some show ?thesis
        by (simp add: emitted_def)
    qed
  qed
qed

lemma convert_rows_raises:
  "row \<in> set rows \<Longrightarrow> convert_row maxd img_size row = Inl e \<Longrightarrow>
     \<exists>e'. convert_rows maxd img_size rows lines = Inl e'"
proof (induction rows arbitrary: lines)
  case Nil
  then show ?case by simp
next
  case (Cons r rows)
  show ?case
  proof (cases "convert_row maxd img_size r")
    case (Inl e0)
    then show ?thesis by simp
  next
    case (Inr v)
    with Cons.prems have "row \<in> set rows" by auto
    from Cons.IH [OF this Cons.prems(2)] Inr show ?thesis
      by (cases v) simp_all
  qed
qed

lemma convert_rows_short:
  "convert_rows maxd img_size rows lines
     = convert_rows maxd img_size (filter (\<lambda>r. 8 \<le> length r) rows) lines"
proof (induction rows arbitrary: lines)
  case Nil
  show ?case by simp
next
  case (Cons r rows)
  show ?case
  proof (cases "8 \<le> length r")
    case True
    then show ?thesis
      by (simp add: Cons.IH split: sum.splits option.splits)
  next
    case False
    then have "convert_row maxd img_size r = Inr None" by (simp add: convert_row_def)
    with False show ?thesis by (simp add: Cons.IH)
  qed
qed

section \<open>The properties\<close>

subsection \<open>The coordinate transform\<close>

text \<open>
  C1, as the code has it. For an image size and box coordinates below \<open>2 ^ 51\<close>,
  \<open>convert_box\<close> returns four finite floats: each is the exact numerator (\<open>x1 + w / 2\<close>,
  \<open>y1 + h / 2\<close>, \<open>w\<close>, \<open>h\<close>) multiplied by the rounded reciprocal of the width or the
  height and rounded again, and each is within a relative distance of \<open>2 powi - 51\<close> of
  the exact quotient. The function is a function of its two arguments alone.
\<close>

theorem convert_box_within_tolerance:
  fixes W H :: nat and x1 y1 w h :: int
  assumes "0 < W" and "W < 2 ^ 51" and "0 < H" and "H < 2 ^ 51"
    and "0 \<le> x1" and "x1 < 2 ^ 51" and "0 \<le> y1" and "y1 < 2 ^ 51"
    and "0 \<le> w" and "w < 2 ^ 51" and "0 \<le> h" and "h < 2 ^ 51"
  shows "\<exists>cx cy nw nh.
           convert_box (W, H) (x1, y1, w, h) = Inr (Finite cx, Finite cy, Finite nw, Finite nh) \<and>
           cx = rnd ((of_int x1 + of_int w / 2) * rnd (1 / of_nat W)) \<and>
           cy = rnd ((of_int y1 + of_int h / 2) * rnd (1 / of_nat H)) \<and>
           nw = rnd (of_int w * rnd (1 / of_nat W)) \<and>
           nh = rnd (of_int h * rnd (1 / of_nat H)) \<and>
           \<bar>cx - (of_int x1 + of_int w / 2) / of_nat W\<bar>
              \<le> (of_int x1 + of_int w / 2) / of_nat W / 2 ^ 51 \<and>
           \<bar>cy - (of_int y1 + of_int h / 2) / of_nat H\<bar>
              \<le> (of_int y1 + of_int h / 2) / of_nat H / 2 ^ 51 \<and>
           \<bar>nw - of_int w / of_nat W\<bar> \<le> of_int w / of_nat W / 2 ^ 51 \<and>
           \<bar>nh - of_int h / of_nat H\<bar> \<le> of_int h / of_nat H / 2 ^ 51"
proof -
  note cxs = half_sum_exact [OF assms(5,6,9,10)]
  note cys = half_sum_exact [OF assms(7,8,11,12)]
  note xs = width_exact [OF assms(5,6)]
  note ys = width_exact [OF assms(7,8)]
  note ws = width_exact [OF assms(9,10)]
  note hs = width_exact [OF assms(11,12)]
  note ex = scaled_error [OF assms(1,2) cxs(3,4)]
  note ey = scaled_error [OF assms(3,4) cys(3,4)]
  note ew = scaled_error [OF assms(1,2) ws(2,3)]
  note eh = scaled_error [OF assms(3,4) hs(2,3)]
  have "convert_box (W, H) (x1, y1, w, h)
          = Inr (Finite (rnd ((of_int x1 + of_int w / 2) * rnd (1 / of_nat W))),
                 Finite (rnd ((of_int y1 + of_int h / 2) * rnd (1 / of_nat H))),
                 Finite (rnd (of_int w * rnd (1 / of_nat W))),
                 Finite (rnd (of_int h * rnd (1 / of_nat H))))"
    unfolding convert_box_def
    by (simp add: recip_float [OF assms(1,2)] recip_float [OF assms(3,4)]
        xs(1) ys(1) ws(1) hs(1) cxs(1,2) cys(1,2) ex(1) ey(1) ew(1) eh(1)
        del: fdiv.simps fadd.simps fmul.simps)
  with ex(2) ey(2) ew(2) eh(2) show ?thesis by blast
qed

theorem convert_box_within_tolerance_witness:
  "\<exists>cx cy nw nh.
     convert_box (49, 49) (0, 0, 49, 49) = Inr (Finite cx, Finite cy, Finite nw, Finite nh) \<and>
     \<bar>cx - 1 / 2\<bar> \<le> 1 / 2 / 2 ^ 51 \<and> \<bar>cy - 1 / 2\<bar> \<le> 1 / 2 / 2 ^ 51 \<and>
     \<bar>nw - 1\<bar> \<le> 1 / 2 ^ 51 \<and> \<bar>nh - 1\<bar> \<le> 1 / 2 ^ 51"
proof -
  have "\<exists>cx cy nw nh.
           convert_box (49, 49) (0, 0, 49, 49) = Inr (Finite cx, Finite cy, Finite nw, Finite nh) \<and>
           cx = rnd ((of_int 0 + of_int 49 / 2) * rnd (1 / of_nat 49)) \<and>
           cy = rnd ((of_int 0 + of_int 49 / 2) * rnd (1 / of_nat 49)) \<and>
           nw = rnd (of_int 49 * rnd (1 / of_nat 49)) \<and>
           nh = rnd (of_int 49 * rnd (1 / of_nat 49)) \<and>
           \<bar>cx - (of_int 0 + of_int 49 / 2) / of_nat 49\<bar>
              \<le> (of_int 0 + of_int 49 / 2) / of_nat 49 / 2 ^ 51 \<and>
           \<bar>cy - (of_int 0 + of_int 49 / 2) / of_nat 49\<bar>
              \<le> (of_int 0 + of_int 49 / 2) / of_nat 49 / 2 ^ 51 \<and>
           \<bar>nw - of_int 49 / of_nat 49\<bar> \<le> of_int 49 / of_nat 49 / 2 ^ 51 \<and>
           \<bar>nh - of_int 49 / of_nat 49\<bar> \<le> of_int 49 / of_nat 49 / 2 ^ 51"
    by (rule convert_box_within_tolerance) simp_all
  then obtain cx cy nw nh :: rat where
    c: "convert_box (49, 49) (0, 0, 49, 49) = Inr (Finite cx, Finite cy, Finite nw, Finite nh)"
    and e: "\<bar>cx - (of_int 0 + of_int 49 / 2) / of_nat 49\<bar>
              \<le> (of_int 0 + of_int 49 / 2) / of_nat 49 / 2 ^ 51"
      "\<bar>cy - (of_int 0 + of_int 49 / 2) / of_nat 49\<bar>
              \<le> (of_int 0 + of_int 49 / 2) / of_nat 49 / 2 ^ 51"
      "\<bar>nw - of_int 49 / of_nat 49\<bar> \<le> of_int 49 / of_nat 49 / 2 ^ 51"
      "\<bar>nh - of_int 49 / of_nat 49\<bar> \<le> of_int 49 / of_nat 49 / 2 ^ 51"
    by blast
  from e have "\<bar>cx - 1 / 2\<bar> \<le> 1 / 2 / 2 ^ 51" "\<bar>cy - 1 / 2\<bar> \<le> 1 / 2 / 2 ^ 51"
    "\<bar>nw - 1\<bar> \<le> 1 / 2 ^ 51" "\<bar>nh - 1\<bar> \<le> 1 / 2 ^ 51"
    by simp_all
  with c show ?thesis by blast
qed

text \<open>
  C1, as stated, fails: for a 49 by 49 image and the box \<open>(0, 0, 49, 49)\<close> the exact
  quotients are \<open>1 / 2\<close> and \<open>1\<close>, both floats, and the code returns the floats just
  below them, because it multiplies by the rounded reciprocal \<^verbatim>\<open>1.0 / size[0]\<close> where
  the claim divides.
\<close>

theorem convert_box_not_exact:
  "convert_box (49, 49) (0, 0, 49, 49)
     = Inr (Finite (9007199254740991 / 18014398509481984),
            Finite (9007199254740991 / 18014398509481984),
            Finite (9007199254740991 / 9007199254740992),
            Finite (9007199254740991 / 9007199254740992)) \<and>
   convert_box (49, 49) (0, 0, 49, 49)
     \<noteq> Inr (Finite ((0 + 49 / 2) / 49), Finite ((0 + 49 / 2) / 49),
            Finite (49 / 49), Finite (49 / 49))"
proof -
  have r: "rnd 49 = 49" "rnd 0 = 0" "rnd (49 / 2) = 49 / 2"
    "rnd (1 / 49) = 5882252574524729 / 288230376151711744"
    "rnd (49 / 2 * (5882252574524729 / 288230376151711744))
       = 9007199254740991 / 18014398509481984"
    "rnd (49 * (5882252574524729 / 288230376151711744))
       = 9007199254740991 / 9007199254740992"
    by code_simp+
  have a: "float_of_int 49 = Inr (Finite 49)" "float_of_int 0 = Inr (Finite 0)"
    by (simp_all add: float_of_int_def Let_def r)
  have b: "fdiv (Finite 1) (Finite 49) = Inr (Finite (5882252574524729 / 288230376151711744))"
    "fdiv (Finite 49) (Finite 2) = Inr (Finite (49 / 2))"
    "fadd (Finite 0) (Finite (49 / 2)) = Finite (49 / 2)"
    by (simp_all add: fl_def Let_def r)
  have c: "fmul (Finite (49 / 2)) (Finite (5882252574524729 / 288230376151711744))
             = Finite (9007199254740991 / 18014398509481984)"
    "fmul (Finite 49) (Finite (5882252574524729 / 288230376151711744))
             = Finite (9007199254740991 / 9007199254740992)"
    unfolding fmul.simps fl_def Let_def r by simp_all
  have v: "convert_box (49, 49) (0, 0, 49, 49)
     = Inr (Finite (9007199254740991 / 18014398509481984),
            Finite (9007199254740991 / 18014398509481984),
            Finite (9007199254740991 / 9007199254740992),
            Finite (9007199254740991 / 9007199254740992))"
    unfolding convert_box_def
    by (simp add: a b c del: fdiv.simps fmul.simps fadd.simps)
  show ?thesis unfolding v by simp
qed

text \<open>
  Beyond the float range the conversion of an integer operand raises, so the bound on the
  coordinates cannot be dropped altogether.
\<close>

lemma convert_box_overflow: "convert_box (1, 1) (0, 0, 2 ^ 1024, 0) = Inl OverflowError"
proof -
  have one: "rnd 1 = 1" using rnd_exact [of 1 0] by simp
  note big = rnd_exact [of 1 1024, simplified]
  have a: "float_of_int 1 = Inr (Finite 1)" by (simp add: float_of_int_def Let_def one)
  have b: "fdiv (Finite 1) (Finite 1) = Inr (Finite 1)" by (simp add: fl_def Let_def one)
  have c: "float_of_int (2 ^ 1024) = Inl OverflowError"
    by (simp add: float_of_int_def Let_def big)
  show ?thesis
    unfolding convert_box_def
    by (simp add: a b c [simplified] del: fdiv.simps fmul.simps fadd.simps)
qed

subsection \<open>The rows of one annotation file\<close>

text \<open>
  C2. On a split that holds the annotation line \<^verbatim>\<open>100,100,50,50,1,3,0,0\<close> in
  \<^verbatim>\<open>a.txt\<close> and the 1000 by 1000 image \<^verbatim>\<open>a.jpg\<close>, the converter does not emit the line
  \<^verbatim>\<open>2 0.125000 0.125000 0.050000 0.050000\<close>: line 63 raises AttributeError before the
  annotation file is opened, the exception leaves the run, and no label file is written.
\<close>

theorem example_record_not_converted:
  "visdrone2yolo maxd split_with_image
     = (Some AttributeError, split_with_image\<lparr>labels_dir := True\<rparr>) \<and>
   label_files (snd (visdrone2yolo maxd split_with_image)) ''a.txt'' = None"
  by (simp add: visdrone2yolo_def split_with_image_def str_with_suffix_def)

text \<open>
  The slip is confined to line 63. The rows loop, on the same line and image size,
  produces exactly the expected line (ended by the newline that \<^verbatim>\<open>writelines\<close> needs),
  and the file body from line 66 on, given the path of the image, writes it as the content
  of the label file.
\<close>

lemma rows_loop_converts_example:
  "read_lines maxd (1000, 1000) (Inr ''100,100,50,50,1,3,0,0'')
     = Inr [''2 0.125000 0.125000 0.050000 0.050000'' @ [CHR 0x0A]] \<and>
   label_files (convert_file maxd ''a.jpg'' ''a.txt'' (Inr ''100,100,50,50,1,3,0,0'')
                  split_with_image) ''a.txt''
     = Some (''2 0.125000 0.125000 0.050000 0.050000'' @ [CHR 0x0A])"
  using read_lines_example [of maxd]
  by (simp add: convert_file_def split_with_image_def example_record_def)

text \<open>
  C3, as the code has it. A line of fewer than 8 fields is skipped alone: the loop gives
  the same result with such lines removed. An exception raised for any row (a category or
  a coordinate that \<^verbatim>\<open>int()\<close> rejects) ends the whole \<^verbatim>\<open>try\<close> block: the file body prints
  an error for the annotation file and writes nothing for it.
\<close>

theorem parse_error_skips_file:
  "convert_rows maxd img_size rows lines
     = convert_rows maxd img_size (filter (\<lambda>r. 8 \<le> length r) rows) lines \<and>
   (image_files w img_path = Some (Inr img_size) \<and> row \<in> set (rows_of content) \<and>
      convert_row maxd img_size row = Inl e \<longrightarrow>
      (\<exists>e'. convert_file maxd img_path name (Inr content) w
               = w\<lparr>stdout := stdout w @ [AnnotationError name e']\<rparr>))"
proof (intro conjI impI)
  show "convert_rows maxd img_size rows lines
          = convert_rows maxd img_size (filter (\<lambda>r. 8 \<le> length r) rows) lines"
    by (rule convert_rows_short)
next
  assume a: "image_files w img_path = Some (Inr img_size) \<and> row \<in> set (rows_of content) \<and>
      convert_row maxd img_size row = Inl e"
  then obtain e' where "convert_rows maxd img_size (rows_of content) [] = Inl e'"
    using convert_rows_raises [of row "rows_of content" maxd img_size e "[]"] by blast
  with a have "convert_file maxd img_path name (Inr content) w
                 = w\<lparr>stdout := stdout w @ [AnnotationError name e']\<rparr>"
    by (simp add: convert_file_def read_lines_def)
  then show "\<exists>e'. convert_file maxd img_path name (Inr content) w
                     = w\<lparr>stdout := stdout w @ [AnnotationError name e']\<rparr>" ..
qed

theorem parse_error_skips_file_witness:
  "\<exists>e'. convert_file 0 ''a.jpg'' ''a.txt''
           (Inr bad_then_good) split_with_image
         = split_with_image\<lparr>stdout := stdout split_with_image @ [AnnotationError ''a.txt'' e']\<rparr>"
proof -
  have i: "image_files split_with_image ''a.jpg'' = Some (Inr (1000, 1000))"
    by (simp add: split_with_image_def)
  have m: "[''a'', ''1'', ''1'', ''1'', ''1'', ''1'', ''0'', ''0'']
             \<in> set (rows_of bad_then_good)"
    by (simp add: rows_of_bad_then_good)
  from parse_error_skips_file
    [where maxd = 0 and img_size = "(1000, 1000)" and w = split_with_image
      and img_path = "''a.jpg''" and name = "''a.txt''" and e = ValueError
      and row = "[''a'', ''1'', ''1'', ''1'', ''1'', ''1'', ''0'', ''0'']"
      and content = bad_then_good]
    i m convert_row_bad [of 0]
  show ?thesis by blast
qed

text \<open>
  C3, as stated, fails: the first line below has 8 fields and a coordinate that is not an
  integer, the second is the valid example record. Alone, the second line is converted;
  after the first, nothing is written for the file.
\<close>

theorem parse_error_counterexample:
  "read_lines 0 (1000, 1000) (Inr ''100,100,50,50,1,3,0,0'')
     = Inr [''2 0.125000 0.125000 0.050000 0.050000'' @ [CHR 0x0A]] \<and>
   convert_file 0 ''a.jpg'' ''a.txt''
       (Inr bad_then_good) split_with_image
     = split_with_image\<lparr>stdout := [AnnotationError ''a.txt'' ValueError]\<rparr>"
  using read_lines_example [of 0]
  by (simp add: example_record_def convert_file_def read_lines_def rows_of_bad_then_good
      convert_row_bad split_with_image_def)

subsection \<open>Missing images\<close>

text \<open>
  C4. On a split whose first annotation file has no image, the run does not warn and go
  on: line 63 raises AttributeError before the test for the image, the exception leaves
  the loop, nothing is printed, and the second file, whose image exists, is never
  converted.
\<close>

theorem missing_image_aborts_split:
  "visdrone2yolo maxd split_without_image
     = (Some AttributeError, split_without_image\<lparr>labels_dir := True\<rparr>)"
  by (simp add: visdrone2yolo_def split_without_image_def str_with_suffix_def)

text \<open>
  The defect is confined to line 63. Any split with an annotation file is aborted by it,
  with nothing printed and nothing written; the file body that follows, given an image
  path, does what the messages of lines 67 and 76 say: it prints one message and leaves
  the label files alone.
\<close>

lemma any_annotation_file_aborts:
  assumes "annotation_files w \<noteq> []"
  shows "visdrone2yolo maxd w = (Some AttributeError, w\<lparr>labels_dir := True\<rparr>)"
  using assms by (cases "annotation_files w") (auto simp: visdrone2yolo_def str_with_suffix_def)

lemma file_body_skips_missing_image:
  assumes "image_files w img_path = None"
  shows "convert_file maxd img_path name file w
           = w\<lparr>stdout := stdout w @ [ImageNotFound img_path name]\<rparr>"
  using assms by (simp add: convert_file_def)

lemma file_body_skips_unreadable_image:
  assumes "image_files w img_path = Some (Inl e)"
  shows "convert_file maxd img_path name file w
           = w\<lparr>stdout := stdout w @ [ImageOpenError img_path e name]\<rparr>"
  using assms by (simp add: convert_file_def)

subsection \<open>The filter\<close>

text \<open>
  C5, as the code has it. A row whose category field reads as the integer 0, or whose
  score field is the text \<^verbatim>\<open>0\<close>, adds no line. The score is compared as text and never
  read as an integer.
\<close>

theorem ignored_region_and_zero_score_dropped:
  assumes "(5 < length row \<and> py_int maxd (row ! 5) = Inr 0) \<or> (4 < length row \<and> row ! 4 = ''0'')"
  shows "convert_row maxd img_size row = Inr None"
  using assms by (auto simp: convert_row_def Let_def)

theorem ignored_region_and_zero_score_dropped_witness:
  "convert_row 0 (1000, 1000) [''100'', ''100'', ''50'', ''50'', ''1'', ''00'', ''0'', ''0'']
     = Inr None"
  using ignored_region_and_zero_score_dropped
    [of "[''100'', ''100'', ''50'', ''50'', ''1'', ''00'', ''0'', ''0'']" 0 "(1000, 1000)"]
  by (simp add: py_int_small)

text \<open>
  C5, as stated, fails: the score field \<^verbatim>\<open>00\<close> has the integer value 0, and the row is
  converted and written.
\<close>

theorem zero_score_counterexample:
  "py_int 0 ''00'' = Inr 0 \<and>
   convert_row 0 (1000, 1000) [''100'', ''100'', ''50'', ''50'', ''00'', ''3'', ''0'', ''0'']
     = Inr (Some (''2 0.125000 0.125000 0.050000 0.050000'' @ [CHR 0x0A]))"
  by (simp add: convert_row_def parse_box_def py_int_small convert_box_example in_unit_def
      label_line_example)

text \<open>
  C6. The class written for a row is its category minus one, a row whose category minus
  one is below 0 or above 9 adds no line, and so a row of category 11 adds none.
\<close>

theorem class_id_remap:
  assumes "5 < length row" and "py_int maxd (row ! 5) = Inr c"
  shows "(c - 1 < 0 \<or> 9 < c - 1 \<longrightarrow> convert_row maxd img_size row = Inr None) \<and>
         (\<forall>l. convert_row maxd img_size row = Inr (Some l) \<longrightarrow>
               (\<exists>rest. l = show_int (c - 1) @ '' '' @ rest)) \<and>
         (row ! 5 = ''11'' \<longrightarrow> convert_row maxd img_size row = Inr None)"
proof -
  have drop: "convert_row maxd img_size row = Inr None" if "c - 1 < 0 \<or> 9 < c - 1"
    using that assms(2) by (simp add: convert_row_def Let_def)
  have emit: "\<exists>rest. l = show_int (c - 1) @ '' '' @ rest"
    if "convert_row maxd img_size row = Inr (Some l)" for l
    using convert_row_Some [OF that] assms(2) by (auto simp: label_line_def)
  have "c = 11" if "row ! 5 = ''11''"
    using that assms(2) by (simp add: py_int_small)
  with drop emit show ?thesis by auto
qed

theorem class_id_remap_witness:
  "py_int 0 ''11'' = Inr 11 \<and>
   convert_row 0 (1000, 1000) [''100'', ''100'', ''50'', ''50'', ''1'', ''11'', ''0'', ''0'']
     = Inr None \<and>
   py_int 0 ''3'' = Inr 3 \<and>
   (\<exists>rest. convert_row 0 (1000, 1000)
              [''100'', ''100'', ''50'', ''50'', ''1'', ''3'', ''0'', ''0'']
            = Inr (Some (show_int (3 - 1) @ '' '' @ rest)))"
proof -
  have "convert_row 0 (1000, 1000) [''100'', ''100'', ''50'', ''50'', ''1'', ''11'', ''0'', ''0'']
          = Inr None"
    using class_id_remap [of "[''100'', ''100'', ''50'', ''50'', ''1'', ''11'', ''0'', ''0'']"
        0 11 "(1000, 1000)"]
    by (simp add: py_int_small)
  moreover have "\<exists>rest. ''2 0.125000 0.125000 0.050000 0.050000'' @ [CHR 0x0A]
                   = show_int (3 - 1) @ '' '' @ rest"
    using class_id_remap [of "[''100'', ''100'', ''50'', ''50'', ''1'', ''3'', ''0'', ''0'']"
        0 3 "(1000, 1000)"] convert_row_example [of 0]
    by (simp add: py_int_small)
  then have "\<exists>rest. convert_row 0 (1000, 1000)
                     [''100'', ''100'', ''50'', ''50'', ''1'', ''3'', ''0'', ''0'']
                   = Inr (Some (show_int (3 - 1) @ '' '' @ rest))"
    using convert_row_example [of 0] by auto
  ultimately show ?thesis by (simp add: py_int_small)
qed

text \<open>
  C7. A row adds a line only if the four values that \<open>convert_box\<close> returns for it are
  finite and within 0 and 1, and the line then holds these very values, formatted; a row
  whose box has a value outside this range adds no line.
\<close>

theorem range_check:
  "(convert_row maxd img_size row = Inr (Some l) \<longrightarrow>
      (\<exists>c b x y u v. py_int maxd (row ! 5) = Inr c \<and> parse_box maxd row = Inr b \<and>
         convert_box img_size b = Inr (Finite x, Finite y, Finite u, Finite v) \<and>
         0 \<le> x \<and> x \<le> 1 \<and> 0 \<le> y \<and> y \<le> 1 \<and> 0 \<le> u \<and> u \<le> 1 \<and> 0 \<le> v \<and> v \<le> 1 \<and>
         l = label_line (c - 1) (Finite x, Finite y, Finite u, Finite v))) \<and>
   (py_int maxd (row ! 5) = Inr c' \<and> parse_box maxd row = Inr b' \<and>
      convert_box img_size b' = Inr (cx, cy, nw, nh) \<and>
      \<not> (in_unit cx \<and> in_unit cy \<and> in_unit nw \<and> in_unit nh) \<longrightarrow>
      convert_row maxd img_size row = Inr None)"
proof (intro conjI impI)
  assume "convert_row maxd img_size row = Inr (Some l)"
  from convert_row_Some [OF this]
  show "\<exists>c b x y u v. py_int maxd (row ! 5) = Inr c \<and> parse_box maxd row = Inr b \<and>
         convert_box img_size b = Inr (Finite x, Finite y, Finite u, Finite v) \<and>
         0 \<le> x \<and> x \<le> 1 \<and> 0 \<le> y \<and> y \<le> 1 \<and> 0 \<le> u \<and> u \<le> 1 \<and> 0 \<le> v \<and> v \<le> 1 \<and>
         l = label_line (c - 1) (Finite x, Finite y, Finite u, Finite v)"
    by (auto simp: in_unit_iff)
next
  assume "py_int maxd (row ! 5) = Inr c' \<and> parse_box maxd row = Inr b' \<and>
      convert_box img_size b' = Inr (cx, cy, nw, nh) \<and>
      \<not> (in_unit cx \<and> in_unit cy \<and> in_unit nw \<and> in_unit nh)"
  then show "convert_row maxd img_size row = Inr None"
    by (auto simp: convert_row_def Let_def)
qed

theorem range_check_witness:
  "(\<exists>c b x y u v. py_int 0 ''3'' = Inr c \<and>
      parse_box 0 [''100'', ''100'', ''50'', ''50'', ''1'', ''3'', ''0'', ''0''] = Inr b \<and>
      convert_box (1000, 1000) b = Inr (Finite x, Finite y, Finite u, Finite v) \<and>
      0 \<le> x \<and> x \<le> 1 \<and> 0 \<le> y \<and> y \<le> 1 \<and> 0 \<le> u \<and> u \<le> 1 \<and> 0 \<le> v \<and> v \<le> 1 \<and>
      ''2 0.125000 0.125000 0.050000 0.050000'' @ [CHR 0x0A]
        = label_line (c - 1) (Finite x, Finite y, Finite u, Finite v)) \<and>
   convert_box (1000, 1000) (990, 100, 50, 50)
     = Inr (Finite (2285576810890527 / 2251799813685248), Finite (1 / 8),
            Finite (3602879701896397 / 72057594037927936),
            Finite (3602879701896397 / 72057594037927936)) \<and>
   convert_row 0 (1000, 1000) [''990'', ''100'', ''50'', ''50'', ''1'', ''3'', ''0'', ''0'']
     = Inr None"
proof -
  have p: "parse_box 0 [''990'', ''100'', ''50'', ''50'', ''1'', ''3'', ''0'', ''0'']
             = Inr (990, 100, 50, 50)"
    by (simp add: parse_box_def py_int_small)
  have out: "\<not> (in_unit (Finite (2285576810890527 / 2251799813685248)) \<and> in_unit (Finite (1 / 8))
               \<and> in_unit (Finite (3602879701896397 / 72057594037927936))
               \<and> in_unit (Finite (3602879701896397 / 72057594037927936)))"
    by (simp add: in_unit_def)
  show ?thesis
    using range_check [where maxd = 0 and img_size = "(1000, 1000)"
        and row = "[''100'', ''100'', ''50'', ''50'', ''1'', ''3'', ''0'', ''0'']"
        and l = "''2 0.125000 0.125000 0.050000 0.050000'' @ [CHR 0x0A]"]
      range_check [where maxd = 0 and img_size = "(1000, 1000)"
        and row = "[''990'', ''100'', ''50'', ''50'', ''1'', ''3'', ''0'', ''0'']"
        and c' = 3 and b' = "(990, 100, 50, 50)"
        and cx = "Finite (2285576810890527 / 2251799813685248)" and cy = "Finite (1 / 8)"
        and nw = "Finite (3602879701896397 / 72057594037927936)"
        and nh = "Finite (3602879701896397 / 72057594037927936)"]
      convert_row_example [of 0] p out convert_box_right_edge
    by (simp add: py_int_small)
qed

subsection \<open>The label files\<close>

text \<open>
  C8. Where the image of an annotation file can be read and no row of the file adds a
  line, the file body leaves the label files as they are: no file is created for it.
\<close>

theorem no_surviving_record_no_file:
  assumes "image_files w img_path = Some (Inr img_size)"
    and "\<forall>row \<in> set (rows_of text). emitted maxd img_size row = None"
  shows "label_files (convert_file maxd img_path name (Inr text) w) = label_files w"
proof (cases "read_lines maxd img_size (Inr text)")
  case (Inl e)
  with assms(1) show ?thesis by (simp add: convert_file_def)
next
  case (Inr lines)
  then have "lines = List.map_filter (emitted maxd img_size) (rows_of text)"
    using convert_rows_map_filter [of maxd img_size "rows_of text" "[]" lines]
    by (simp add: read_lines_def)
  with assms(2) have "lines = []"
    by (simp add: List.map_filter_def filter_empty_conv)
  with Inr assms(1) show ?thesis by (simp add: convert_file_def)
qed

theorem no_surviving_record_no_file_witness:
  "image_files split_with_image ''a.jpg'' = Some (Inr (1000, 1000)) \<and>
   rows_of ''1,1,1,1,1,0,0,0'' = [[''1'', ''1'', ''1'', ''1'', ''1'', ''0'', ''0'', ''0'']] \<and>
   emitted 0 (1000, 1000) [''1'', ''1'', ''1'', ''1'', ''1'', ''0'', ''0'', ''0''] = None \<and>
   label_files (convert_file 0 ''a.jpg'' ''a.txt'' (Inr ''1,1,1,1,1,0,0,0'') split_with_image)
     = label_files split_with_image"
proof -
  have i: "image_files split_with_image ''a.jpg'' = Some (Inr (1000, 1000))"
    by (simp add: split_with_image_def)
  have rows: "rows_of ''1,1,1,1,1,0,0,0'' = [[''1'', ''1'', ''1'', ''1'', ''1'', ''0'', ''0'', ''0'']]"
    by (simp add: rows_of_def strip_def is_space_def splitlines_def is_linebreak_def split_def)
  have e: "\<forall>row \<in> set (rows_of ''1,1,1,1,1,0,0,0''). emitted 0 (1000, 1000) row = None"
    by (simp add: rows emitted_def convert_row_def)
  from no_surviving_record_no_file [OF i e, of "''a.txt''"] i e rows show ?thesis by simp
qed

text \<open>
  C9. A second run over an unchanged input leaves every label file as the first run left
  it, creates and deletes none, and ends as the first did. The same holds for the file
  body alone: converting one annotation file twice leaves the label files as converting
  it once does.
\<close>

theorem second_run_changes_nothing:
  "fst (visdrone2yolo maxd (snd (visdrone2yolo maxd w))) = fst (visdrone2yolo maxd w) \<and>
   label_files (snd (visdrone2yolo maxd (snd (visdrone2yolo maxd w))))
     = label_files (snd (visdrone2yolo maxd w)) \<and>
   labels_dir (snd (visdrone2yolo maxd (snd (visdrone2yolo maxd w))))
     = labels_dir (snd (visdrone2yolo maxd w)) \<and>
   annotation_files (snd (visdrone2yolo maxd w)) = annotation_files w \<and>
   image_files (snd (visdrone2yolo maxd w)) = image_files w \<and>
   label_files (convert_file maxd img_path name file (convert_file maxd img_path name file w))
     = label_files (convert_file maxd img_path name file w)"
proof -
  have run: "visdrone2yolo maxd v
               = (if annotation_files v = [] then None else Some AttributeError,
                  v\<lparr>labels_dir := True\<rparr>)" for v
    by (cases "annotation_files v")
       (auto simp: visdrone2yolo_def str_with_suffix_def)
  have body: "label_files (convert_file maxd img_path name file
                             (convert_file maxd img_path name file w))
                = label_files (convert_file maxd img_path name file w)"
    by (simp add: convert_file_def split: option.splits sum.splits)
  show ?thesis by (simp add: run body)
qed

text \<open>
  C10. Where the file body writes a label file, its lines are the lines added by the rows
  of the annotation file, each row in its place: the rows that add nothing are left out
  and the others keep their order.
\<close>

theorem output_lines_in_source_order:
  assumes "image_files w img_path = Some (Inr img_size)"
    and "read_lines maxd img_size (Inr text) = Inr lines" and "lines \<noteq> []"
  shows "lines = List.map_filter (emitted maxd img_size) (rows_of text) \<and>
         label_files (convert_file maxd img_path name (Inr text) w)
           = (label_files w)(name \<mapsto> concat lines)"
proof -
  have "lines = List.map_filter (emitted maxd img_size) (rows_of text)"
    using convert_rows_map_filter [of maxd img_size "rows_of text" "[]" lines] assms(2)
    by (simp add: read_lines_def)
  moreover have "label_files (convert_file maxd img_path name (Inr text) w)
                   = (label_files w)(name \<mapsto> concat lines)"
    using assms by (simp add: convert_file_def)
  ultimately show ?thesis by simp
qed

theorem output_lines_in_source_order_witness:
  "read_lines 0 (1000, 1000) (Inr three_lines)
     = Inr [''2 0.125000 0.125000 0.050000 0.050000'' @ [CHR 0x0A],
            ''3 0.125000 0.125000 0.050000 0.050000'' @ [CHR 0x0A]] \<and>
   [''2 0.125000 0.125000 0.050000 0.050000'' @ [CHR 0x0A],
    ''3 0.125000 0.125000 0.050000 0.050000'' @ [CHR 0x0A]]
     = List.map_filter (emitted 0 (1000, 1000)) (rows_of three_lines) \<and>
   label_files (convert_file 0 ''a.jpg'' ''a.txt'' (Inr three_lines) split_with_image)
     = (label_files split_with_image)
         (''a.txt'' \<mapsto> ''2 0.125000 0.125000 0.050000 0.050000'' @ [CHR 0x0A]
                       @ ''3 0.125000 0.125000 0.050000 0.050000'' @ [CHR 0x0A])"
proof -
  have i: "image_files split_with_image ''a.jpg'' = Some (Inr (1000, 1000))"
    by (simp add: split_with_image_def)
  have n: "[''2 0.125000 0.125000 0.050000 0.050000'' @ [CHR 0x0A],
            ''3 0.125000 0.125000 0.050000 0.050000'' @ [CHR 0x0A]] \<noteq> []" by simp
  from output_lines_in_source_order [OF i read_lines_three_lines [of 0] n, of "''a.txt''"]
    read_lines_three_lines [of 0]
  show ?thesis by simp
qed

end
